theory Spec2Isabelle
  imports Main "HOL-Library.AList"
begin

section \<open>Data model of \<^verbatim>\<open>advanced_sunbeam_openstack/charm.py\<close>\<close>

text \<open>
  Exceptions are values. \<open>AttributeError\<close> and \<open>TypeError\<close> are the interpreter's own;
  \<open>RelationDataError\<close> is the framework's refusal of a write to a data bag the unit may
  not write; \<open>HookError\<close> stands for whatever an overriding bootstrap hook raises.
\<close>

datatype pyerror =
    AttributeError string
  | TypeError string
  | RelationDataError
  | HookError string

datatype status = UnknownStatus | MaintenanceStatus | WaitingStatus | BlockedStatus | ActiveStatus

datatype handler_kind =
    AMQPHandler | DBHandler | SharedDBHandler | IngressHandler | BasePeerHandler
  | IdentityServiceRequiresHandler

text \<open>
  A relation handler as \<open>configure_charm\<close> and \<open>contexts\<close> see it: its
  \<open>relation_name\<close>, its \<open>ready\<close> property, and the entries it writes into the render
  context (\<open>rh_context\<close>). The handler classes themselves live in \<open>relation_handlers\<close>.
\<close>

record 'v relation_handler =
  handler_kind :: handler_kind
  relation_name :: string
  ready :: bool
  rh_context :: "(string \<times> 'v) list"

text \<open>
  A pebble handler as \<open>configure_charm\<close> sees it: the two properties it reads. Each
  handler object owns its state; \<open>init_service\<close> acts on the handler it is called on.
\<close>

record pebble_handler =
  container_name :: string
  pebble_ready :: bool
  service_ready :: bool

text \<open>
  Modelled from the spec: \<open>OPSCharmContexts\<close> (module \<open>core\<close>) is the RenderContext, a
  mapping from a namespace key to a value, filled in insertion order, a later write to a
  key replacing the earlier one. \<open>add_relation_handler\<close> lets a handler write its
  entries; \<open>add_config_contexts\<close> writes those of the configuration contexts.
\<close>

type_synonym 'v OPSCharmContexts = "(string \<times> 'v) list"

definition write_entries :: "(string \<times> 'v) list \<Rightarrow> 'v OPSCharmContexts \<Rightarrow> 'v OPSCharmContexts" where
  "write_entries es ra = fold (\<lambda>(k, v). AList.update k v) es ra"

definition add_relation_handler ::
  "'v OPSCharmContexts \<Rightarrow> 'v relation_handler \<Rightarrow> 'v OPSCharmContexts" where
  "add_relation_handler ra h = write_entries (rh_context h) ra"

definition add_config_contexts ::
  "'v OPSCharmContexts \<Rightarrow> (string \<times> 'v) list \<Rightarrow> 'v OPSCharmContexts" where
  "add_config_contexts ra es = write_entries es ra"

text \<open>
  The charm object \<open>self\<close>: the keys of \<open>self.meta.relations\<close>, the two handler lists,
  the entries of \<open>self.config_contexts\<close>, \<open>self.unit.status\<close> and the stored
  \<open>self._state.bootstrapped\<close>.
\<close>

record 'v charm =
  service_name :: string
  meta_relations :: "string list"
  relation_handlers :: "'v relation_handler list"
  pebble_handlers :: "pebble_handler list"
  config_contexts :: "(string \<times> 'v) list"
  unit_status :: status
  state_bootstrapped :: bool

text \<open>
  What a concrete charm and its container handlers supply: \<open>PebbleHandler.init_service\<close>
  (module \<open>container_handlers\<close>) and the override of \<open>_do_bootstrap\<close>, which returns
  (\<open>None\<close>) or raises (\<open>Some e\<close>).
\<close>

record 'v behaviour =
  init_service :: "'v OPSCharmContexts \<Rightarrow> pebble_handler \<Rightarrow> pebble_handler"
  do_bootstrap_override :: "'v charm \<Rightarrow> pyerror option"

text \<open>The calls a pass makes on its collaborators, in order.\<close>

datatype 'v call =
    InitService string "'v OPSCharmContexts"
  | DoBootstrap "pyerror option"

datatype outcome = RelationsNotReady | ServiceNotReady | Raised pyerror | Completed

section \<open>Operations\<close>

text \<open>\<open>can_add_handler\<close>, lines 62-73.\<close>

definition can_add_handler :: "'v charm \<Rightarrow> string \<Rightarrow> 'v relation_handler list \<Rightarrow> bool" where
  "can_add_handler c name handlers =
     (if name \<notin> set (meta_relations c) then False
      else if name \<in> set (map relation_name handlers) then False
      else True)"

text \<open>
  Modelled from the spec: the constructors of the handler classes are absent. A
  constructed handler carries the relation name it is given; its readiness and the values
  it contributes are what the external negotiation \<open>ext\<close> reports for that relation.
\<close>

definition new_handler ::
  "(string \<Rightarrow> bool \<times> (string \<times> 'v) list) \<Rightarrow> handler_kind \<Rightarrow> string \<Rightarrow> 'v relation_handler" where
  "new_handler ext k name =
     \<lparr>handler_kind = k, relation_name = name, ready = fst (ext name), rh_context = snd (ext name)\<rparr>"

text \<open>
  \<open>OSBaseOperatorCharm.get_relation_handlers\<close>, lines 75-115. \<open>handlers or []\<close> turns
  \<open>None\<close> into the empty list.
\<close>

definition add_if ::
  "'v charm \<Rightarrow> (string \<Rightarrow> bool \<times> (string \<times> 'v) list) \<Rightarrow> handler_kind \<Rightarrow> string \<Rightarrow>
   'v relation_handler list \<Rightarrow> 'v relation_handler list" where
  "add_if c ext k name handlers =
     (if can_add_handler c name handlers then handlers @ [new_handler ext k name] else handlers)"

definition get_relation_handlers ::
  "'v charm \<Rightarrow> (string \<Rightarrow> bool \<times> (string \<times> 'v) list) \<Rightarrow> 'v relation_handler list option \<Rightarrow>
   'v relation_handler list" where
  "get_relation_handlers c ext handlers =
     (let h0 = (case handlers of None \<Rightarrow> [] | Some hs \<Rightarrow> hs);
          h1 = add_if c ext AMQPHandler ''amqp'' h0;
          db_svc = service_name c @ ''-db'';
          h2 = add_if c ext DBHandler db_svc h1;
          h3 = add_if c ext SharedDBHandler ''shared-db'' h2;
          h4 = add_if c ext IngressHandler ''ingress'' h3;
          h5 = add_if c ext BasePeerHandler ''peers'' h4
      in h5)"

text \<open>\<open>OSBaseOperatorAPICharm.get_relation_handlers\<close>, lines 242-255.\<close>

definition api_get_relation_handlers ::
  "'v charm \<Rightarrow> (string \<Rightarrow> bool \<times> (string \<times> 'v) list) \<Rightarrow> 'v relation_handler list option \<Rightarrow>
   'v relation_handler list" where
  "api_get_relation_handlers c ext handlers =
     (let h0 = (case handlers of None \<Rightarrow> [] | Some hs \<Rightarrow> hs);
          h1 = add_if c ext IdentityServiceRequiresHandler ''identity-service'' h0
      in get_relation_handlers c ext (Some h1))"

text \<open>\<open>relation_handlers_ready\<close>, lines 188-194: the first handler not ready ends the loop.\<close>

fun handlers_ready_loop :: "'v relation_handler list \<Rightarrow> bool" where
  "handlers_ready_loop [] = True"
| "handlers_ready_loop (h # hs) = (if \<not> ready h then False else handlers_ready_loop hs)"

definition relation_handlers_ready :: "'v charm \<Rightarrow> bool" where
  "relation_handlers_ready c = handlers_ready_loop (relation_handlers c)"

text \<open>\<open>contexts\<close>, lines 196-208.\<close>

fun contexts_loop ::
  "string list \<Rightarrow> 'v relation_handler list \<Rightarrow> 'v OPSCharmContexts \<Rightarrow> 'v OPSCharmContexts" where
  "contexts_loop meta [] ra = ra"
| "contexts_loop meta (h # hs) ra =
     (if relation_name h \<notin> set meta then contexts_loop meta hs ra
      else if ready h then contexts_loop meta hs (add_relation_handler ra h)
      else contexts_loop meta hs ra)"

definition contexts :: "'v charm \<Rightarrow> 'v OPSCharmContexts" where
  "contexts c =
     add_config_contexts (contexts_loop (meta_relations c) (relation_handlers c) [])
       (config_contexts c)"

text \<open>\<open>bootstrapped\<close>, lines 218-220.\<close>

definition bootstrapped :: "'v charm \<Rightarrow> bool" where
  "bootstrapped c = state_bootstrapped c"

text \<open>
  \<open>configure_charm\<close>, lines 129-148. The first loop calls \<open>init_service\<close> on the
  handlers whose \<open>pebble_ready\<close> holds; the second returns at the first handler whose
  \<open>service_ready\<close> does not.
\<close>

fun init_loop ::
  "'v behaviour \<Rightarrow> 'v charm \<Rightarrow> pebble_handler list \<Rightarrow> pebble_handler list \<times> 'v call list" where
  "init_loop B c [] = ([], [])"
| "init_loop B c (ph # phs) =
     (if pebble_ready ph
      then (let ctx = contexts c; ph' = init_service B ctx ph; (phs', cs) = init_loop B c phs
            in (ph' # phs', InitService (container_name ph) ctx # cs))
      else (let (phs', cs) = init_loop B c phs in (ph # phs', cs)))"

fun service_ready_loop :: "pebble_handler list \<Rightarrow> bool" where
  "service_ready_loop [] = True"
| "service_ready_loop (ph # phs) = (if \<not> service_ready ph then False else service_ready_loop phs)"

definition configure_charm :: "'v behaviour \<Rightarrow> 'v charm \<Rightarrow> 'v charm \<times> 'v call list \<times> outcome" where
  "configure_charm B c =
     (if \<not> relation_handlers_ready c then (c, [], RelationsNotReady)
      else
        let (phs, cs) = init_loop B c (pebble_handlers c);
            c1 = c\<lparr>pebble_handlers := phs\<rparr>
        in if \<not> service_ready_loop (pebble_handlers c1) then (c1, cs, ServiceNotReady)
           else if \<not> bootstrapped c1
           then (case do_bootstrap_override B c1 of
                   Some e \<Rightarrow> (c1, cs @ [DoBootstrap (Some e)], Raised e)
                 | None \<Rightarrow>
                     (c1\<lparr>unit_status := ActiveStatus, state_bootstrapped := True\<rparr>,
                      cs @ [DoBootstrap None], Completed))
           else (c1\<lparr>unit_status := ActiveStatus, state_bootstrapped := True\<rparr>, cs, Completed))"

text \<open>
  \<open>get_pebble_handlers\<close>, lines 117-127: one handler, for the container named after the
  service. Its two properties are the handler's own stored state, given here as \<open>pst\<close>.
\<close>

definition get_pebble_handlers :: "'v charm \<Rightarrow> bool \<times> bool \<Rightarrow> pebble_handler list" where
  "get_pebble_handlers c pst =
     [\<lparr>container_name = service_name c, pebble_ready = fst pst, service_ready = snd pst\<rparr>]"

text \<open>
  \<open>StoredState.set_default\<close> of the framework sets a key only when the store does not
  hold it yet. \<open>stored\<close> is what the store holds for \<open>bootstrapped\<close> when the charm
  object is created: \<open>None\<close> on a fresh deployment.
\<close>

definition set_default :: "bool option \<Rightarrow> bool \<Rightarrow> bool" where
  "set_default stored d = (case stored of None \<Rightarrow> d | Some b \<Rightarrow> b)"

text \<open>\<open>OSBaseOperatorCharm.__init__\<close>, lines 54-60.\<close>

definition init ::
  "string \<Rightarrow> string list \<Rightarrow> (string \<Rightarrow> bool \<times> (string \<times> 'v) list) \<Rightarrow> bool \<times> bool \<Rightarrow>
   (string \<times> 'v) list \<Rightarrow> status \<Rightarrow> bool option \<Rightarrow> 'v charm" where
  "init name meta ext pst cfg st stored =
     (let c0 = \<lparr>service_name = name, meta_relations = meta, relation_handlers = [],
                pebble_handlers = [], config_contexts = cfg, unit_status = st,
                state_bootstrapped = set_default stored False\<rparr>;
          c1 = c0\<lparr>relation_handlers := get_relation_handlers c0 ext None\<rparr>;
          c2 = c1\<lparr>pebble_handlers := get_pebble_handlers c1 pst\<rparr>
      in c2)"

section \<open>Sequences of passes\<close>

text \<open>
  Between two passes the collaborators may report anything: a trigger carries the handler
  lists as the next pass finds them. The charm object is created anew for each dispatch,
  so \<open>set_default\<close> runs again on the stored flag.
\<close>

record 'v trigger =
  tr_relation_handlers :: "'v relation_handler list"
  tr_pebble_handlers :: "pebble_handler list"

definition observe :: "'v trigger \<Rightarrow> 'v charm \<Rightarrow> 'v charm" where
  "observe t c =
     c\<lparr>relation_handlers := tr_relation_handlers t,
       pebble_handlers := tr_pebble_handlers t,
       state_bootstrapped := set_default (Some (state_bootstrapped c)) False\<rparr>"

fun run ::
  "'v behaviour \<Rightarrow> 'v charm \<Rightarrow> 'v trigger list \<Rightarrow> ('v charm \<times> 'v call list \<times> outcome) list" where
  "run B c [] = []"
| "run B c (t # ts) = (let r = configure_charm B (observe t c) in r # run B (fst r) ts)"

definition trace :: "('v charm \<times> 'v call list \<times> outcome) list \<Rightarrow> 'v call list" where
  "trace rs = concat (map (\<lambda>r. fst (snd r)) rs)"

fun is_bootstrap :: "'v call \<Rightarrow> bool" where
  "is_bootstrap (DoBootstrap e) = True"
| "is_bootstrap (InitService n ctx) = False"

text \<open>Calling \<open>configure_charm\<close> again and again, nothing else happening in between.\<close>

fun repeat_configure :: "'v behaviour \<Rightarrow> nat \<Rightarrow> 'v charm \<Rightarrow> 'v charm \<times> 'v call list" where
  "repeat_configure B 0 c = (c, [])"
| "repeat_configure B (Suc n) c =
     (let (c1, cs, out) = configure_charm B c; (c2, cs') = repeat_configure B n c1
      in (c2, cs @ cs'))"

section \<open>Peer data\<close>

record peer_handler =
  app_data :: "(string \<times> string) list"

text \<open>
  Modelled from the spec: \<open>BasePeerHandler.set_app_data\<close> and \<open>get_app_data\<close> are
  absent. Only the elected leader may write, all instances may read; a write by another
  instance is rejected or is a no-op, \<open>rejects\<close> saying which.
\<close>

definition set_app_data ::
  "bool \<Rightarrow> bool \<Rightarrow> peer_handler \<Rightarrow> string \<Rightarrow> string \<Rightarrow> pyerror + peer_handler" where
  "set_app_data rejects leader p k v =
     (if leader then Inr (p\<lparr>app_data := AList.update k v (app_data p)\<rparr>)
      else if rejects then Inl RelationDataError
      else Inr p)"

definition get_app_data :: "peer_handler \<Rightarrow> string \<Rightarrow> string option" where
  "get_app_data p k = map_of (app_data p) k"

text \<open>
  The part of the charm object that \<open>leader_set\<close> and \<open>leader_get\<close> (lines 222-228) use:
  \<open>self.peers\<close>, an attribute only when the \<open>peers\<close> handler was constructed.
\<close>

record peer_view =
  leader :: bool
  peers :: "peer_handler option"

definition leader_set :: "bool \<Rightarrow> peer_view \<Rightarrow> string \<Rightarrow> string \<Rightarrow> pyerror + peer_view" where
  "leader_set rejects u k v =
     (case peers u of
        None \<Rightarrow> Inl (AttributeError ''peers'')
      | Some p \<Rightarrow>
          (case set_app_data rejects (leader u) p k v of
             Inl e \<Rightarrow> Inl e
           | Inr p' \<Rightarrow> Inr (u\<lparr>peers := Some p'\<rparr>)))"

definition leader_get :: "peer_view \<Rightarrow> string \<Rightarrow> pyerror + string option" where
  "leader_get u k =
     (case peers u of
        None \<Rightarrow> Inl (AttributeError ''peers'')
      | Some p \<Rightarrow> Inr (get_app_data p k))"

section \<open>\<^verbatim>\<open>sunbeam_mysql_k8s/v0/shared_db.py\<close>\<close>

datatype meth =
    Db_rel | Joined_first | Joined_second | Changed | Broken | Request_access

datatype pyval =
    Str string
  | StrList "string list"
  | Ref string
  | JsonDumps pyval
  | BoundMethod meth

datatype db_event = Connected | Ready | GoneAway

datatype relation_event = RelationJoined | RelationChanged | RelationDeparted | RelationBroken

text \<open>
  The body of class \<open>SharedDBRequires\<close>, name by name in the order of the file (lines
  56-111); a name defined twice keeps its last definition. \<open>object_dict\<close> is what the
  framework's \<open>Object\<close> base class provides.
\<close>

definition class_body :: "(string \<times> pyval) list" where
  "class_body =
     [(''on'', Ref ''DatabaseServerEvents''),
      (''_stored'', Ref ''StoredState''),
      (''_db_rel'', BoundMethod Db_rel),
      (''_on_database_relation_joined'', BoundMethod Joined_first),
      (''_on_database_relation_joined'', BoundMethod Joined_second),
      (''_on_database_relation_changed'', BoundMethod Changed),
      (''_on_database_relation_broken'', BoundMethod Broken),
      (''request_access'', BoundMethod Request_access)]"

definition class_dict :: "(string \<times> pyval) list" where
  "class_dict = fold (\<lambda>(k, v). AList.update k v) class_body []"

definition object_dict :: "(string \<times> pyval) list" where
  "object_dict = [(''handle_kind'', Ref ''HandleKind''), (''model'', Ref ''Model'')]"

text \<open>
  An instance: its \<open>__dict__\<close>, whether the unit is the leader, the application data bag
  of the relation (\<open>None\<close> when \<open>get_relation\<close> finds no relation), and the events emitted
  on \<open>self.on\<close>.
\<close>

record shared_db =
  inst_dict :: "(string \<times> pyval) list"
  is_leader :: bool
  db_rel_data :: "(string \<times> pyval) list option"
  emitted :: "db_event list"

text \<open>Attribute lookup: the instance, then the class, then the base class.\<close>

definition getattr :: "shared_db \<Rightarrow> string \<Rightarrow> pyerror + pyval" where
  "getattr s name =
     (case map_of (inst_dict s) name of
        Some v \<Rightarrow> Inr v
      | None \<Rightarrow>
          (case map_of class_dict name of
             Some v \<Rightarrow> Inr v
           | None \<Rightarrow>
               (case map_of object_dict name of
                  Some v \<Rightarrow> Inr v
                | None \<Rightarrow> Inl (AttributeError name))))"

text \<open>
  \<open>__init__\<close>, lines 59-79. The base class stores \<open>framework\<close> and \<open>handle\<close>; the class
  stores \<open>charm\<close>, \<open>relation_name\<close> and \<open>databases\<close>. The four \<open>observe\<close> calls are the
  table \<open>observers\<close>.
\<close>

definition shared_db_init ::
  "string \<Rightarrow> string \<Rightarrow> string list \<Rightarrow> bool \<Rightarrow> (string \<times> pyval) list option \<Rightarrow> shared_db" where
  "shared_db_init charm_ref rname dbs ldr rel =
     \<lparr>inst_dict =
        [(''framework'', Ref ''Framework''), (''handle'', Ref ''Handle''),
         (''charm'', Ref charm_ref), (''relation_name'', Str rname),
         (''databases'', StrList dbs)],
      is_leader = ldr, db_rel_data = rel, emitted = []\<rparr>"

definition observers :: "(relation_event \<times> string) list" where
  "observers =
     [(RelationJoined, ''_on_database_relation_joined''),
      (RelationChanged, ''_on_database_relation_changed''),
      (RelationDeparted, ''_on_database_relation_changed''),
      (RelationBroken, ''_on_database_relation_broken'')]"

definition emit :: "db_event \<Rightarrow> shared_db \<Rightarrow> shared_db" where
  "emit e s = s\<lparr>emitted := emitted s @ [e]\<rparr>"

text \<open>
  \<open>request_access\<close>, lines 107-111, called with the positional arguments \<open>args\<close> after
  \<open>self\<close>: it takes exactly one. A leader writes \<open>json.dumps(databases)\<close> under
  \<open>databases\<close>; with no relation, \<open>self._db_rel\<close> is \<open>None\<close> and has no \<open>data\<close>.
\<close>

fun request_access :: "shared_db \<Rightarrow> pyval list \<Rightarrow> shared_db \<times> pyerror option" where
  "request_access s [databases] =
     (if is_leader s
      then (case db_rel_data s of
              None \<Rightarrow> (s, Some (AttributeError ''data''))
            | Some d \<Rightarrow>
                (s\<lparr>db_rel_data := Some (AList.update ''databases'' (JsonDumps databases) d)\<rparr>,
                 None))
      else (s, None))"
| "request_access s args = (s, Some (TypeError ''request_access''))"

text \<open>The first \<open>_on_database_relation_joined\<close>, lines 86-88: it only logs.\<close>

definition on_database_relation_joined_first :: "shared_db \<Rightarrow> shared_db \<times> pyerror option" where
  "on_database_relation_joined_first s = (s, None)"

text \<open>
  The second \<open>_on_database_relation_joined\<close>, lines 90-94:
  \<open>self.on.connected.emit()\<close>, then \<open>self.request_access(self.username, self.databases)\<close>,
  the callee and the arguments evaluated from left to right.
\<close>

definition on_database_relation_joined :: "shared_db \<Rightarrow> shared_db \<times> pyerror option" where
  "on_database_relation_joined s =
     (let s1 = emit Connected s in
      case getattr s1 ''request_access'' of
        Inl e \<Rightarrow> (s1, Some e)
      | Inr f \<Rightarrow>
          (case getattr s1 ''username'' of
             Inl e \<Rightarrow> (s1, Some e)
           | Inr u \<Rightarrow>
               (case getattr s1 ''databases'' of
                  Inl e \<Rightarrow> (s1, Some e)
                | Inr d \<Rightarrow>
                    (case f of
                       BoundMethod Request_access \<Rightarrow> request_access s1 [u, d]
                     | _ \<Rightarrow> (s1, Some (TypeError ''not callable''))))))"

text \<open>\<open>_on_database_relation_changed\<close>, lines 96-100.\<close>

fun truthy :: "pyval \<Rightarrow> bool" where
  "truthy (Str x) = (x \<noteq> [])"
| "truthy (StrList xs) = (xs \<noteq> [])"
| "truthy (Ref r) = True"
| "truthy (JsonDumps v) = True"
| "truthy (BoundMethod m) = True"

definition on_database_relation_changed :: "shared_db \<Rightarrow> shared_db \<times> pyerror option" where
  "on_database_relation_changed s =
     (case getattr s ''password'' of
        Inl e \<Rightarrow> (s, Some e)
      | Inr p \<Rightarrow> (if truthy p then (emit Ready s, None) else (s, None)))"

text \<open>\<open>_on_database_relation_broken\<close>, lines 102-105.\<close>

definition on_database_relation_broken :: "shared_db \<Rightarrow> shared_db \<times> pyerror option" where
  "on_database_relation_broken s = (emit GoneAway s, None)"

text \<open>
  Delivery of a relation event: the observer registered for it is looked up on the
  instance and run.
\<close>

fun run_method :: "meth \<Rightarrow> shared_db \<Rightarrow> shared_db \<times> pyerror option" where
  "run_method Joined_first s = on_database_relation_joined_first s"
| "run_method Joined_second s = on_database_relation_joined s"
| "run_method Changed s = on_database_relation_changed s"
| "run_method Broken s = on_database_relation_broken s"
| "run_method Request_access s = request_access s []"
| "run_method Db_rel s = (s, None)"

definition dispatch :: "shared_db \<Rightarrow> relation_event \<Rightarrow> shared_db \<times> pyerror option" where
  "dispatch s ev =
     (case map_of observers ev of
        None \<Rightarrow> (s, None)
      | Some name \<Rightarrow>
          (case getattr s name of
             Inl e \<Rightarrow> (s, Some e)
           | Inr (BoundMethod m) \<Rightarrow> run_method m s
           | Inr _ \<Rightarrow> (s, Some (TypeError ''not callable''))))"

section \<open>A concrete charm\<close>

text \<open>
  A service \<open>keystone\<close> whose metadata declares \<open>amqp\<close> and \<open>peers\<close>, with one
  container; \<open>r\<close> is the readiness of the amqp handler, \<open>p\<close> and \<open>s\<close> the two
  properties of the container's handler.
\<close>

definition amqp_handler :: "bool \<Rightarrow> string relation_handler" where
  "amqp_handler r =
     \<lparr>handler_kind = AMQPHandler, relation_name = ''amqp'', ready = r,
      rh_context = [(''amqp'', ''rabbit'')]\<rparr>"

definition peers_handler :: "string relation_handler" where
  "peers_handler =
     \<lparr>handler_kind = BasePeerHandler, relation_name = ''peers'', ready = True,
      rh_context = [(''peers'', ''secret'')]\<rparr>"

definition ingress_handler :: "string relation_handler" where
  "ingress_handler =
     \<lparr>handler_kind = IngressHandler, relation_name = ''ingress'', ready = True,
      rh_context = [(''ingress'', ''url'')]\<rparr>"

definition container :: "string \<Rightarrow> bool \<Rightarrow> bool \<Rightarrow> pebble_handler" where
  "container n p s = \<lparr>container_name = n, pebble_ready = p, service_ready = s\<rparr>"

definition keystone :: "bool \<Rightarrow> bool \<Rightarrow> bool \<Rightarrow> string charm" where
  "keystone r p s =
     \<lparr>service_name = ''keystone'', meta_relations = [''amqp'', ''peers''],
      relation_handlers = [amqp_handler r, peers_handler],
      pebble_handlers = [container ''keystone'' p s],
      config_contexts = [(''options'', ''debug'')],
      unit_status = WaitingStatus, state_bootstrapped = False\<rparr>"

definition keystone_trigger :: "bool \<Rightarrow> bool \<Rightarrow> bool \<Rightarrow> string trigger" where
  "keystone_trigger r p s =
     \<lparr>tr_relation_handlers = [amqp_handler r, peers_handler],
      tr_pebble_handlers = [container ''keystone'' p s]\<rparr>"

definition keystone_ctx :: "string OPSCharmContexts" where
  "keystone_ctx = [(''amqp'', ''rabbit''), (''peers'', ''secret''), (''options'', ''debug'')]"

text \<open>
  \<open>starts_service\<close>: \<open>init_service\<close> brings the service up, the bootstrap hook is the base
  class's \<open>pass\<close>. \<open>failing_hook\<close>: the same with a hook that raises.
\<close>

definition starts_service :: "string behaviour" where
  "starts_service =
     \<lparr>init_service = (\<lambda>ctx ph. ph\<lparr>service_ready := True\<rparr>),
      do_bootstrap_override = (\<lambda>c. None)\<rparr>"

definition failing_hook :: "string behaviour" where
  "failing_hook =
     \<lparr>init_service = (\<lambda>ctx ph. ph\<lparr>service_ready := True\<rparr>),
      do_bootstrap_override = (\<lambda>c. Some (HookError ''migration failed''))\<rparr>"

text \<open>\<open>leaves_service\<close>: an \<open>init_service\<close> that changes nothing in the handler.\<close>

definition leaves_service :: "string behaviour" where
  "leaves_service =
     \<lparr>init_service = (\<lambda>ctx ph. ph), do_bootstrap_override = (\<lambda>c. None)\<rparr>"

text \<open>Two containers, the second not reachable yet.\<close>

definition two_containers :: "string charm" where
  "two_containers =
     (keystone True True False)
       \<lparr>pebble_handlers := [container ''keystone'' True False, container ''worker'' False False]\<rparr>"

text \<open>
  A handler for \<open>ingress\<close>, which the metadata of \<open>keystone\<close> does not declare, put
  between the two declared ones.
\<close>

definition with_ingress :: "string charm" where
  "with_ingress =
     (keystone True True True)
       \<lparr>relation_handlers := [amqp_handler True, ingress_handler, peers_handler]\<rparr>"

text \<open>A unit that is not the leader, with the peer relation present.\<close>

definition follower :: peer_view where
  "follower = \<lparr>leader = False, peers = Some \<lparr>app_data = [(''password'', ''s3cret'')]\<rparr>\<rparr>"

definition follower_db :: shared_db where
  "follower_db = shared_db_init ''keystone'' ''shared-db'' [''keystone''] False (Some [])"

text \<open>
  The calls of a sequence up to and including the first bootstrap invocation that
  returned.
\<close>

fun upto_first_success :: "'v call list \<Rightarrow> 'v call list" where
  "upto_first_success [] = []"
| "upto_first_success (DoBootstrap None # xs) = [DoBootstrap None]"
| "upto_first_success (x # xs) = x # upto_first_success xs"

text \<open>
  A hook that needs the broker: it raises unless the render context names the broker
  \<open>rabbit\<close>. \<open>stale_trigger\<close> is a dispatch in which the amqp handler is ready but
  still reports an old broker.
\<close>

definition needs_broker :: "string behaviour" where
  "needs_broker =
     \<lparr>init_service = (\<lambda>ctx ph. ph\<lparr>service_ready := True\<rparr>),
      do_bootstrap_override =
        (\<lambda>c. if map_of (contexts c) ''amqp'' = Some ''rabbit'' then None
             else Some (HookError ''broker unreachable''))\<rparr>"

definition stale_trigger :: "string trigger" where
  "stale_trigger =
     \<lparr>tr_relation_handlers =
        [\<lparr>handler_kind = AMQPHandler, relation_name = ''amqp'', ready = True,
          rh_context = [(''amqp'', ''stale'')]\<rparr>, peers_handler],
      tr_pebble_handlers = [container ''keystone'' True False]\<rparr>"

definition stale_ctx :: "string OPSCharmContexts" where
  "stale_ctx = [(''amqp'', ''stale''), (''peers'', ''secret''), (''options'', ''debug'')]"

section \<open>Lemmas on the loops and on a pass\<close>

lemma handlers_ready_loop_iff: "handlers_ready_loop hs \<longleftrightarrow> list_all ready hs"
  by (induction hs) auto

lemma service_ready_loop_iff: "service_ready_loop phs \<longleftrightarrow> list_all service_ready phs"
  by (induction phs) auto

lemma init_loop_calls:
  "snd (init_loop B c phs) =
     map (\<lambda>p. InitService (container_name p) (contexts c)) (filter pebble_ready phs)"
  by (induction phs) (auto simp: Let_def split: prod.splits)

lemma init_loop_handlers:
  "fst (init_loop B c phs) =
     map (\<lambda>p. if pebble_ready p then init_service B (contexts c) p else p) phs"
  by (induction phs) (auto simp: Let_def split: prod.splits)

lemma init_loop_no_bootstrap: "x \<in> set (snd (init_loop B c phs)) \<Longrightarrow> \<not> is_bootstrap x"
  by (auto simp: init_loop_calls)

text \<open>The four ways a pass ends.\<close>

lemma configure_charm_cases:
  assumes "configure_charm B c = (c', cs, out)"
  obtains
    (gate) "\<not> relation_handlers_ready c" "c' = c" "cs = []" "out = RelationsNotReady"
  | (service) "relation_handlers_ready c"
      "c' = c\<lparr>pebble_handlers := fst (init_loop B c (pebble_handlers c))\<rparr>"
      "cs = snd (init_loop B c (pebble_handlers c))"
      "\<not> service_ready_loop (pebble_handlers c')" "out = ServiceNotReady"
  | (raised) e where "relation_handlers_ready c"
      "c' = c\<lparr>pebble_handlers := fst (init_loop B c (pebble_handlers c))\<rparr>"
      "cs = snd (init_loop B c (pebble_handlers c)) @ [DoBootstrap (Some e)]"
      "service_ready_loop (pebble_handlers c')" "\<not> state_bootstrapped c"
      "do_bootstrap_override B c' = Some e" "out = Raised e"
  | (first) "relation_handlers_ready c"
      "c' = c\<lparr>pebble_handlers := fst (init_loop B c (pebble_handlers c)),
              unit_status := ActiveStatus, state_bootstrapped := True\<rparr>"
      "cs = snd (init_loop B c (pebble_handlers c)) @ [DoBootstrap None]"
      "service_ready_loop (pebble_handlers c')" "\<not> state_bootstrapped c"
      "out = Completed"
      "do_bootstrap_override B
         (c\<lparr>pebble_handlers := fst (init_loop B c (pebble_handlers c))\<rparr>) = None"
  | (again) "relation_handlers_ready c"
      "c' = c\<lparr>pebble_handlers := fst (init_loop B c (pebble_handlers c)),
              unit_status := ActiveStatus, state_bootstrapped := True\<rparr>"
      "cs = snd (init_loop B c (pebble_handlers c))"
      "service_ready_loop (pebble_handlers c')" "state_bootstrapped c"
      "out = Completed"
  using assms
  by (auto simp: configure_charm_def bootstrapped_def Let_def
           split: if_splits prod.splits option.splits)


lemma observe_bootstrapped [simp]: "state_bootstrapped (observe t c) = state_bootstrapped c"
  by (simp add: observe_def set_default_def)

lemma observe_status [simp]: "unit_status (observe t c) = unit_status c"
  by (simp add: observe_def)

lemma pass_bootstrapped_no_hook:
  assumes "state_bootstrapped c" and "configure_charm B c = (c', cs, out)"
  shows "state_bootstrapped c' \<and> (\<forall>x\<in>set cs. \<not> is_bootstrap x)"
  using assms(2)
proof (cases rule: configure_charm_cases)
  case gate
  with assms(1) show ?thesis by simp
next
  case service
  with assms(1) show ?thesis by (auto dest: init_loop_no_bootstrap)
next
  case (raised e)
  with assms(1) show ?thesis by simp
next
  case first
  with assms(1) show ?thesis by simp
next
  case again
  then show ?thesis by (auto dest: init_loop_no_bootstrap)
qed

lemma pass_hook_is_last:
  assumes "configure_charm B c = (c', cs, out)" and "cs = xs @ DoBootstrap e # ys"
  shows "ys = [] \<and> (\<forall>x\<in>set xs. \<not> is_bootstrap x) \<and> (e = None \<longrightarrow> state_bootstrapped c')"
proof -
  let ?is = "snd (init_loop B c (pebble_handlers c))"
  have no: "\<forall>x\<in>set ?is. \<not> is_bootstrap x"
    by (auto dest: init_loop_no_bootstrap)
  have split: "ys = [] \<and> xs = ?is" if "?is @ [DoBootstrap e'] = xs @ DoBootstrap e # ys" for e'
  proof (cases ys rule: rev_cases)
    case Nil
    with that show ?thesis by simp
  next
    case (snoc ys' y)
    with that have "?is = xs @ DoBootstrap e # ys'"
      by (metis append_Cons append_assoc butlast_snoc)
    with no show ?thesis by auto
  qed
  from assms(1) show ?thesis
  proof (cases rule: configure_charm_cases)
    case gate
    with assms(2) show ?thesis by simp
  next
    case service
    with assms(2) no show ?thesis by (metis in_set_conv_decomp is_bootstrap.simps(1))
  next
    case (raised e')
    with assms(2) split[of "Some e'"] no show ?thesis by auto
  next
    case first
    with assms(2) split[of None] no show ?thesis by auto
  next
    case again
    with assms(2) no show ?thesis by (metis in_set_conv_decomp is_bootstrap.simps(1))
  qed
qed

lemma trace_Nil [simp]: "trace [] = []"
  by (simp add: trace_def)

lemma trace_Cons [simp]: "trace (r # rs) = fst (snd r) @ trace rs"
  by (simp add: trace_def)

lemma run_bootstrapped_no_hook:
  "state_bootstrapped c \<Longrightarrow> \<forall>x\<in>set (trace (run B c ts)). \<not> is_bootstrap x"
proof (induction ts arbitrary: c)
  case Nil
  then show ?case by simp
next
  case (Cons t ts)
  obtain c' cs out where r: "configure_charm B (observe t c) = (c', cs, out)"
    by (cases "configure_charm B (observe t c)") auto
  from Cons.prems have "state_bootstrapped (observe t c)" by simp
  from pass_bootstrapped_no_hook[OF this r]
  have "state_bootstrapped c'" and "\<forall>x\<in>set cs. \<not> is_bootstrap x" by auto
  with Cons.IH[of c'] r show ?case by (auto simp: Let_def)
qed

lemma run_after_success:
  "trace (run B c ts) = xs @ DoBootstrap None # ys \<Longrightarrow> \<forall>x\<in>set ys. \<not> is_bootstrap x"
proof (induction ts arbitrary: c xs)
  case Nil
  then show ?case by simp
next
  case (Cons t ts)
  obtain c' cs out where r: "configure_charm B (observe t c) = (c', cs, out)"
    by (cases "configure_charm B (observe t c)") auto
  with Cons.prems have eq: "cs @ trace (run B c' ts) = xs @ DoBootstrap None # ys"
    by (simp add: Let_def)
  then consider
      (here) us where "cs = xs @ DoBootstrap None # us" "ys = us @ trace (run B c' ts)"
    | (later) us where "xs = cs @ us" "trace (run B c' ts) = us @ DoBootstrap None # ys"
    by (auto simp: append_eq_append_conv2 append_eq_Cons_conv Cons_eq_append_conv)
  then show ?case
  proof cases
    case here
    from pass_hook_is_last[OF r here(1)] have "us = []" "state_bootstrapped c'" by auto
    with here(2) run_bootstrapped_no_hook[of c' B ts] show ?thesis by simp
  next
    case later
    from Cons.IH[OF later(2)] show ?thesis .
  qed
qed

lemma pass_hook_at_most_once:
  assumes "configure_charm B c = (c', cs, out)"
  shows "length (filter is_bootstrap cs) \<le> 1"
  using assms
  by (cases rule: configure_charm_cases)
     (auto simp: init_loop_calls filter_empty_conv o_def)

lemma run_pass_hook_at_most_once:
  "\<forall>r\<in>set (run B c ts). length (filter is_bootstrap (fst (snd r))) \<le> 1"
proof (induction ts arbitrary: c)
  case Nil
  then show ?case by simp
next
  case (Cons t ts)
  obtain c' cs out where r: "configure_charm B (observe t c) = (c', cs, out)"
    by (cases "configure_charm B (observe t c)") auto
  from pass_hook_at_most_once[OF r] Cons.IH[of c'] r show ?case
    by (simp add: Let_def)
qed

section \<open>The dependency gate\<close>

text \<open>
  C1. A pass in which some relation handler is not ready returns at the dependency gate:
  it makes no call at all (so no \<open>init_service\<close> and no bootstrap), and it returns the
  charm as it found it, so \<open>bootstrapped\<close> and the unit status are what they were.
\<close>

theorem gate_aborts_before_any_step:
  assumes "h \<in> set (relation_handlers c)" and "\<not> ready h"
  shows "configure_charm B c = (c, [], RelationsNotReady)"
proof -
  from assms have "\<not> list_all ready (relation_handlers c)"
    by (auto simp: list_all_iff)
  then have "\<not> relation_handlers_ready c"
    by (simp add: relation_handlers_ready_def handlers_ready_loop_iff)
  then show ?thesis
    by (simp add: configure_charm_def)
qed

lemmas example_defs =
  keystone_def keystone_trigger_def amqp_handler_def peers_handler_def ingress_handler_def
  container_def starts_service_def failing_hook_def leaves_service_def keystone_ctx_def
  two_containers_def with_ingress_def follower_def follower_db_def needs_broker_def
  stale_trigger_def stale_ctx_def

lemmas engine_defs =
  configure_charm_def relation_handlers_ready_def contexts_def bootstrapped_def
  add_relation_handler_def add_config_contexts_def write_entries_def observe_def
  set_default_def trace_def

theorem gate_aborts_witness:
  "amqp_handler False \<in> set (relation_handlers (keystone False True False)) \<and>
   \<not> ready (amqp_handler False) \<and>
   configure_charm starts_service (keystone False True False) =
     (keystone False True False, [], RelationsNotReady)"
  using gate_aborts_before_any_step
    [of "amqp_handler False" "keystone False True False" starts_service]
  by (simp add: keystone_def amqp_handler_def)

section \<open>The bootstrap hook\<close>

lemma pass_hook_result:
  assumes "configure_charm B c = (c', cs, out)" and "DoBootstrap e \<in> set cs"
  shows "\<exists>c1. e = do_bootstrap_override B c1"
  using assms(1)
proof (cases rule: configure_charm_cases)
  case gate
  with assms(2) show ?thesis by simp
next
  case service
  with assms(2) init_loop_no_bootstrap[of "DoBootstrap e" B c "pebble_handlers c"]
  show ?thesis by simp
next
  case (raised e')
  with assms(2) init_loop_no_bootstrap[of "DoBootstrap e" B c "pebble_handlers c"]
  show ?thesis by (metis Un_iff empty_iff empty_set is_bootstrap.simps(1) call.inject(2)
      set_ConsD set_append)
next
  case first
  with assms(2) init_loop_no_bootstrap[of "DoBootstrap e" B c "pebble_handlers c"]
  show ?thesis by (metis Un_iff empty_iff empty_set is_bootstrap.simps(1) call.inject(2)
      set_ConsD set_append)
next
  case again
  with assms(2) init_loop_no_bootstrap[of "DoBootstrap e" B c "pebble_handlers c"]
  show ?thesis by simp
qed

lemma run_hook_result:
  "DoBootstrap e \<in> set (trace (run B c ts)) \<Longrightarrow> \<exists>c1. e = do_bootstrap_override B c1"
proof (induction ts arbitrary: c)
  case Nil
  then show ?case by simp
next
  case (Cons t ts)
  obtain c' cs out where r: "configure_charm B (observe t c) = (c', cs, out)"
    by (cases "configure_charm B (observe t c)") auto
  with Cons.prems have "DoBootstrap e \<in> set cs \<or> DoBootstrap e \<in> set (trace (run B c' ts))"
    by (auto simp: Let_def)
  then show ?case
  proof
    assume "DoBootstrap e \<in> set cs"
    with r show ?thesis by (rule pass_hook_result)
  next
    assume "DoBootstrap e \<in> set (trace (run B c' ts))"
    then show ?thesis by (rule Cons.IH)
  qed
qed

lemma at_most_one_success:
  "(\<And>xs ys. t = xs @ DoBootstrap None # ys \<Longrightarrow> \<forall>x\<in>set ys. \<not> is_bootstrap x) \<Longrightarrow>
   length (filter (\<lambda>x. x = DoBootstrap None) t) \<le> 1"
proof (induction t)
  case Nil
  then show ?case by simp
next
  case (Cons a t)
  show ?case
  proof (cases "a = DoBootstrap None")
    case True
    with Cons.prems[of "[]" t] have "\<forall>x\<in>set t. \<not> is_bootstrap x" by simp
    then have "filter (\<lambda>x. x = DoBootstrap None) t = []"
      by (auto simp: filter_empty_conv)
    with True show ?thesis by simp
  next
    case False
    have "length (filter (\<lambda>x. x = DoBootstrap None) t) \<le> 1"
    proof (rule Cons.IH)
      fix xs ys
      assume "t = xs @ DoBootstrap None # ys"
      then have "a # t = (a # xs) @ DoBootstrap None # ys" by simp
      then show "\<forall>x\<in>set ys. \<not> is_bootstrap x" by (rule Cons.prems)
    qed
    with False show ?thesis by simp
  qed
qed

lemma run_one_success:
  "length (filter (\<lambda>x. x = DoBootstrap None) (trace (run B c ts))) \<le> 1"
  by (rule at_most_one_success) (rule run_after_success)

lemma run_never_raising:
  assumes "\<forall>c1. do_bootstrap_override B c1 = None"
  shows "length (filter is_bootstrap (trace (run B c ts))) \<le> 1"
proof -
  have "is_bootstrap x \<longleftrightarrow> x = DoBootstrap None" if "x \<in> set (trace (run B c ts))" for x
  proof (cases x)
    case (InitService n ctx)
    then show ?thesis by simp
  next
    case (DoBootstrap e)
    with that run_hook_result[of e B c ts] assms show ?thesis by auto
  qed
  then have "filter is_bootstrap (trace (run B c ts)) =
      filter (\<lambda>x. x = DoBootstrap None) (trace (run B c ts))"
    by (auto intro: filter_cong)
  with run_one_success[of B c ts] show ?thesis by simp
qed

text \<open>
  C2. Over any sequence of passes, whatever the collaborators report in between: a pass
  invokes the bootstrap hook at most once; over the whole sequence the hook returns at
  most once, and after the invocation that returned (the pass then sets the flag) no
  later call invokes it; a sequence that starts with the flag set never invokes it.
  Invocations that raise are not bounded: each later pass that gets past the gates
  invokes the hook again. With a hook that never raises, the hook is invoked at most once
  in all.
\<close>

theorem bootstrap_hook_succeeds_at_most_once:
  "(\<forall>r\<in>set (run B c ts). length (filter is_bootstrap (fst (snd r))) \<le> 1) \<and>
   length (filter (\<lambda>x. x = DoBootstrap None) (trace (run B c ts))) \<le> 1 \<and>
   (\<forall>xs ys. trace (run B c ts) = xs @ DoBootstrap None # ys \<longrightarrow>
      (\<forall>x\<in>set ys. \<not> is_bootstrap x)) \<and>
   (state_bootstrapped c \<longrightarrow> (\<forall>x\<in>set (trace (run B c ts)). \<not> is_bootstrap x)) \<and>
   ((\<forall>c1. do_bootstrap_override B c1 = None) \<longrightarrow>
      length (filter is_bootstrap (trace (run B c ts))) \<le> 1)"
  using run_pass_hook_at_most_once[of B c ts] run_after_success[of B c ts]
    run_bootstrapped_no_hook[of c B ts] run_one_success[of B c ts] run_never_raising[of B c ts]
  by blast

lemma retried_run:
  "trace (run needs_broker (keystone False True False)
     [stale_trigger, keystone_trigger True True False, keystone_trigger True True True]) =
   [InitService ''keystone'' stale_ctx, DoBootstrap (Some (HookError ''broker unreachable'')),
    InitService ''keystone'' keystone_ctx, DoBootstrap None,
    InitService ''keystone'' keystone_ctx]"
  by (simp add: example_defs engine_defs Let_def)

text \<open>
  A hook that raises on the first pass that reaches it and returns on the next is
  invoked twice up to its first success.
\<close>

theorem bootstrap_hook_twice_before_success:
  "length (filter is_bootstrap (upto_first_success
     (trace (run needs_broker (keystone False True False)
        [stale_trigger, keystone_trigger True True False, keystone_trigger True True True])))) = 2"
  unfolding retried_run by simp

theorem bootstrap_hook_succeeds_witness:
  "trace (run needs_broker (keystone False True False)
     [stale_trigger, keystone_trigger True True False, keystone_trigger True True True]) =
     [InitService ''keystone'' stale_ctx, DoBootstrap (Some (HookError ''broker unreachable'')),
      InitService ''keystone'' keystone_ctx] @ DoBootstrap None #
     [InitService ''keystone'' keystone_ctx] \<and>
   \<not> is_bootstrap (InitService ''keystone'' keystone_ctx) \<and>
   length (filter (\<lambda>x. x = DoBootstrap None)
     (trace (run needs_broker (keystone False True False)
        [stale_trigger, keystone_trigger True True False, keystone_trigger True True True])))
     \<le> 1 \<and>
   (\<forall>c1. do_bootstrap_override starts_service c1 = None) \<and>
   length (filter is_bootstrap
     (trace (run starts_service (keystone False True False)
        [keystone_trigger False True False, keystone_trigger True True False,
         keystone_trigger True True True]))) \<le> 1 \<and>
   state_bootstrapped ((keystone True True True)\<lparr>state_bootstrapped := True\<rparr>) \<and>
   list_all (\<lambda>x. \<not> is_bootstrap x)
     (trace (run starts_service ((keystone True True True)\<lparr>state_bootstrapped := True\<rparr>)
       [keystone_trigger True True True]))"
proof -
  let ?rs = "[stale_trigger, keystone_trigger True True False, keystone_trigger True True True]"
  let ?ts = "[keystone_trigger False True False, keystone_trigger True True False,
      keystone_trigger True True True]"
  let ?I = "InitService ''keystone'' keystone_ctx"
  let ?K = "(keystone True True True)\<lparr>state_bootstrapped := True\<rparr>"
  have t: "trace (run needs_broker (keystone False True False) ?rs) =
      [InitService ''keystone'' stale_ctx, DoBootstrap (Some (HookError ''broker unreachable'')),
       ?I] @ DoBootstrap None # [?I]"
    unfolding retried_run by simp
  have b: "state_bootstrapped ?K"
    by simp
  have n: "\<forall>c1. do_bootstrap_override starts_service c1 = None"
    by (simp add: starts_service_def)
  note once = bootstrap_hook_succeeds_at_most_once[of needs_broker "keystone False True False" ?rs]
  from t once have "\<forall>x\<in>set [?I]. \<not> is_bootstrap x" by blast
  then have i: "\<not> is_bootstrap ?I" by simp
  from once have s: "length (filter (\<lambda>x. x = DoBootstrap None)
      (trace (run needs_broker (keystone False True False) ?rs))) \<le> 1"
    by blast
  from n bootstrap_hook_succeeds_at_most_once[of starts_service "keystone False True False" ?ts]
  have a: "length (filter is_bootstrap
      (trace (run starts_service (keystone False True False) ?ts))) \<le> 1"
    by blast
  from b bootstrap_hook_succeeds_at_most_once[of starts_service ?K "[keystone_trigger True True True]"]
  have "\<forall>x\<in>set (trace (run starts_service ?K [keystone_trigger True True True])).
      \<not> is_bootstrap x"
    by blast
  then have l: "list_all (\<lambda>x. \<not> is_bootstrap x)
      (trace (run starts_service ?K [keystone_trigger True True True]))"
    unfolding list_all_iff .
  from t i s n a b l show ?thesis by blast
qed

text \<open>
  C3. When the hook raises \<open>e\<close> in a pass, the pass ends with \<open>e\<close> raised, the flag
  is still false and the status is what it was; any later pass that gets past both gates
  invokes the hook again.
\<close>

theorem bootstrap_error_propagates:
  assumes "configure_charm B c = (c', cs, out)" and "DoBootstrap (Some e) \<in> set cs"
  shows "out = Raised e \<and> \<not> state_bootstrapped c' \<and> unit_status c' = unit_status c \<and>
    (\<forall>B' t c'' cs'' out''. configure_charm B' (observe t c') = (c'', cs'', out'') \<and>
        out'' \<noteq> RelationsNotReady \<and> out'' \<noteq> ServiceNotReady \<longrightarrow>
        (\<exists>x\<in>set cs''. is_bootstrap x))"
proof -
  have first: "out = Raised e \<and> \<not> state_bootstrapped c' \<and> unit_status c' = unit_status c"
    using assms(1)
  proof (cases rule: configure_charm_cases)
    case gate
    with assms(2) show ?thesis by simp
  next
    case service
    with assms(2) init_loop_no_bootstrap[of "DoBootstrap (Some e)" B c "pebble_handlers c"]
    show ?thesis by simp
  next
    case (raised e')
    with assms(2) init_loop_no_bootstrap[of "DoBootstrap (Some e)" B c "pebble_handlers c"]
    show ?thesis by auto
  next
    case first
    with assms(2) init_loop_no_bootstrap[of "DoBootstrap (Some e)" B c "pebble_handlers c"]
    show ?thesis by auto
  next
    case again
    with assms(2) init_loop_no_bootstrap[of "DoBootstrap (Some e)" B c "pebble_handlers c"]
    show ?thesis by simp
  qed
  have retry: "\<exists>x\<in>set cs''. is_bootstrap x"
    if r: "configure_charm B' (observe t c') = (c'', cs'', out'')"
      and o: "out'' \<noteq> RelationsNotReady" "out'' \<noteq> ServiceNotReady"
    for B' t c'' cs'' out''
    using r
  proof (cases rule: configure_charm_cases)
    case gate
    with o show ?thesis by simp
  next
    case service
    with o show ?thesis by simp
  next
    case (raised e')
    then show ?thesis by simp
  next
    case first
    then show ?thesis by simp
  next
    case again
    with first show ?thesis by simp
  qed
  from first retry show ?thesis by blast
qed

lemma failing_pass:
  "configure_charm failing_hook (keystone True True False) =
     ((keystone True True False)\<lparr>pebble_handlers := [container ''keystone'' True True]\<rparr>,
      [InitService ''keystone'' keystone_ctx, DoBootstrap (Some (HookError ''migration failed''))],
      Raised (HookError ''migration failed''))"
  by (simp add: example_defs engine_defs Let_def)

lemma retry_pass:
  "configure_charm starts_service
     (observe (keystone_trigger True True True)
        ((keystone True True False)\<lparr>pebble_handlers := [container ''keystone'' True True]\<rparr>)) =
     ((keystone True True True)\<lparr>unit_status := ActiveStatus, state_bootstrapped := True\<rparr>,
      [InitService ''keystone'' keystone_ctx, DoBootstrap None], Completed)"
  by (simp add: example_defs engine_defs Let_def)

theorem bootstrap_error_propagates_witness:
  "configure_charm failing_hook (keystone True True False) =
     ((keystone True True False)\<lparr>pebble_handlers := [container ''keystone'' True True]\<rparr>,
      [InitService ''keystone'' keystone_ctx, DoBootstrap (Some (HookError ''migration failed''))],
      Raised (HookError ''migration failed'')) \<and>
   DoBootstrap (Some (HookError ''migration failed'')) \<in>
     set [InitService ''keystone'' keystone_ctx, DoBootstrap (Some (HookError ''migration failed''))] \<and>
   \<not> state_bootstrapped
       ((keystone True True False)\<lparr>pebble_handlers := [container ''keystone'' True True]\<rparr>) \<and>
   (\<exists>x\<in>set [InitService ''keystone'' keystone_ctx, DoBootstrap None]. is_bootstrap x)"
proof -
  have m: "DoBootstrap (Some (HookError ''migration failed'')) \<in>
     set [InitService ''keystone'' keystone_ctx, DoBootstrap (Some (HookError ''migration failed''))]"
    by simp
  from bootstrap_error_propagates[OF failing_pass m] retry_pass
  have "\<not> state_bootstrapped
       ((keystone True True False)\<lparr>pebble_handlers := [container ''keystone'' True True]\<rparr>)"
    and "\<exists>x\<in>set [InitService ''keystone'' keystone_ctx, DoBootstrap None]. is_bootstrap x"
    by blast+
  with failing_pass m show ?thesis by blast
qed

section \<open>Manifest filtering\<close>

lemma add_if_names:
  "set (map relation_name (add_if c ext k name hs)) \<subseteq>
     set (map relation_name hs) \<union> set (meta_relations c)"
  by (auto simp: add_if_def can_add_handler_def new_handler_def)

lemma get_relation_handlers_names:
  "set (map relation_name (get_relation_handlers c ext (Some hs))) \<subseteq>
     set (map relation_name hs) \<union> set (meta_relations c)"
proof -
  let ?N = "\<lambda>xs. set (map relation_name xs)"
  let ?M = "set (meta_relations c)"
  let ?h1 = "add_if c ext AMQPHandler ''amqp'' hs"
  let ?h2 = "add_if c ext DBHandler (service_name c @ ''-db'') ?h1"
  let ?h3 = "add_if c ext SharedDBHandler ''shared-db'' ?h2"
  let ?h4 = "add_if c ext IngressHandler ''ingress'' ?h3"
  let ?h5 = "add_if c ext BasePeerHandler ''peers'' ?h4"
  have "?N ?h1 \<subseteq> ?N hs \<union> ?M" by (rule add_if_names)
  moreover have "?N ?h2 \<subseteq> ?N ?h1 \<union> ?M" by (rule add_if_names)
  moreover have "?N ?h3 \<subseteq> ?N ?h2 \<union> ?M" by (rule add_if_names)
  moreover have "?N ?h4 \<subseteq> ?N ?h3 \<union> ?M" by (rule add_if_names)
  moreover have "?N ?h5 \<subseteq> ?N ?h4 \<union> ?M" by (rule add_if_names)
  ultimately have "?N ?h5 \<subseteq> ?N hs \<union> ?M" by blast
  then show ?thesis by (simp add: get_relation_handlers_def Let_def)
qed

lemma get_relation_handlers_None:
  "get_relation_handlers c ext None = get_relation_handlers c ext (Some [])"
  by (simp add: get_relation_handlers_def)

lemma base_handlers_declared:
  "set (map relation_name (get_relation_handlers c ext None)) \<subseteq> set (meta_relations c)"
  using get_relation_handlers_names[of c ext "[]"] by (simp add: get_relation_handlers_None)

lemma api_handlers_declared:
  "set (map relation_name (api_get_relation_handlers c ext None)) \<subseteq> set (meta_relations c)"
proof -
  let ?h1 = "add_if c ext IdentityServiceRequiresHandler ''identity-service'' []"
  have "set (map relation_name ?h1) \<subseteq> set (meta_relations c)"
    using add_if_names[of c ext IdentityServiceRequiresHandler "''identity-service''" "[]"]
    by simp
  with get_relation_handlers_names[of c ext ?h1]
  show ?thesis by (auto simp: api_get_relation_handlers_def Let_def)
qed

lemma contexts_loop_drop:
  "relation_name h \<notin> set meta \<Longrightarrow>
   contexts_loop meta (hs1 @ h # hs2) ra = contexts_loop meta (hs1 @ hs2) ra"
  by (induction hs1 arbitrary: ra) auto

text \<open>
  C4. For a relation name \<open>R\<close> that the metadata does not declare:
  \<open>can_add_handler\<close> is false whatever the handlers so far, so neither
  \<open>get_relation_handlers\<close> (base or API charm) constructs a handler named \<open>R\<close>; and
  a handler named \<open>R\<close> that sits in the handler list all the same is skipped by
  \<open>contexts\<close>, ready or not: the render context is the one built without it.
\<close>

theorem undeclared_relation_never_contributes:
  assumes "R \<notin> set (meta_relations c)"
  shows "\<not> can_add_handler c R handlers \<and>
    R \<notin> set (map relation_name (get_relation_handlers c ext None)) \<and>
    R \<notin> set (map relation_name (api_get_relation_handlers c ext None)) \<and>
    (\<forall>h hs1 hs2. relation_name h = R \<longrightarrow>
       contexts (c\<lparr>relation_handlers := hs1 @ h # hs2\<rparr>) =
       contexts (c\<lparr>relation_handlers := hs1 @ hs2\<rparr>))"
proof -
  from assms have "\<not> can_add_handler c R handlers"
    by (simp add: can_add_handler_def)
  moreover from assms base_handlers_declared[of c ext]
  have "R \<notin> set (map relation_name (get_relation_handlers c ext None))" by blast
  moreover from assms api_handlers_declared[of c ext]
  have "R \<notin> set (map relation_name (api_get_relation_handlers c ext None))" by blast
  moreover have "contexts (c\<lparr>relation_handlers := hs1 @ h # hs2\<rparr>) =
       contexts (c\<lparr>relation_handlers := hs1 @ hs2\<rparr>)" if "relation_name h = R" for h hs1 hs2
    using that assms by (simp add: contexts_def contexts_loop_drop)
  ultimately show ?thesis by blast
qed


theorem undeclared_relation_witness:
  "''ingress'' \<notin> set (meta_relations (keystone True True True)) \<and>
   relation_name ingress_handler = ''ingress'' \<and> ready ingress_handler \<and>
   \<not> can_add_handler (keystone True True True) ''ingress'' [] \<and>
   map relation_name (get_relation_handlers (keystone True True True)
       (\<lambda>n. (True, [(n, ''v'')])) None) = [''amqp'', ''peers''] \<and>
   contexts with_ingress = contexts (keystone True True True) \<and>
   contexts with_ingress = keystone_ctx"
proof -
  have m: "''ingress'' \<notin> set (meta_relations (keystone True True True))"
    by (simp add: keystone_def)
  have n: "relation_name ingress_handler = ''ingress''" "ready ingress_handler"
    by (simp_all add: ingress_handler_def)
  have w: "with_ingress =
      (keystone True True True)\<lparr>relation_handlers := [amqp_handler True] @ ingress_handler # [peers_handler]\<rparr>"
    and k: "keystone True True True =
      (keystone True True True)\<lparr>relation_handlers := [amqp_handler True] @ [peers_handler]\<rparr>"
    by (simp_all add: with_ingress_def keystone_def)
  from undeclared_relation_never_contributes[OF m, of "[]" "\<lambda>n. (True, [(n, ''v'')])"] n
  have a: "\<not> can_add_handler (keystone True True True) ''ingress'' []"
    and b: "contexts ((keystone True True True)
              \<lparr>relation_handlers := [amqp_handler True] @ ingress_handler # [peers_handler]\<rparr>) =
            contexts ((keystone True True True)
              \<lparr>relation_handlers := [amqp_handler True] @ [peers_handler]\<rparr>)"
    by blast+
  from b w k have e: "contexts with_ingress = contexts (keystone True True True)"
    by simp
  have g: "map relation_name (get_relation_handlers (keystone True True True)
       (\<lambda>n. (True, [(n, ''v'')])) None) = [''amqp'', ''peers'']"
    by (simp add: get_relation_handlers_def add_if_def can_add_handler_def new_handler_def
        keystone_def Let_def)
  have v: "contexts with_ingress = keystone_ctx"
    by (simp add: example_defs engine_defs)
  from m n a g e v show ?thesis by blast
qed

section \<open>Process initialisation and the process gate\<close>

text \<open>
  C5. In a pass whose relation handlers are all ready, the calls to \<open>init_service\<close>
  are, in order, one for each pebble handler whose \<open>pebble_ready\<close> holds, each with
  the context \<open>contexts\<close> builds; the other handlers are left as they are. If, after
  that, some handler's \<open>service_ready\<close> is false, the pass ends at the process gate:
  the hook is not invoked, and status and flag are what they were.
\<close>

theorem init_service_exactly_for_pebble_ready:
  assumes "relation_handlers_ready c" and "configure_charm B c = (c', cs, out)"
  shows "filter (\<lambda>x. \<not> is_bootstrap x) cs =
      map (\<lambda>p. InitService (container_name p) (contexts c))
        (filter pebble_ready (pebble_handlers c)) \<and>
    pebble_handlers c' =
      map (\<lambda>p. if pebble_ready p then init_service B (contexts c) p else p)
        (pebble_handlers c) \<and>
    ((\<exists>p\<in>set (pebble_handlers c'). \<not> service_ready p) \<longrightarrow>
       out = ServiceNotReady \<and> (\<forall>x\<in>set cs. \<not> is_bootstrap x) \<and>
       unit_status c' = unit_status c \<and> state_bootstrapped c' = state_bootstrapped c)"
proof -
  let ?is = "snd (init_loop B c (pebble_handlers c))"
  have keep: "filter (\<lambda>x. \<not> is_bootstrap x) ?is = ?is"
    by (simp add: init_loop_calls filter_map o_def)
  have nb: "\<forall>x\<in>set ?is. \<not> is_bootstrap x"
    by (auto dest: init_loop_no_bootstrap)
  from assms(2) show ?thesis
  proof (cases rule: configure_charm_cases)
    case gate
    with assms(1) show ?thesis by simp
  next
    case service
    with keep nb show ?thesis
      by (simp add: init_loop_calls init_loop_handlers)
  next
    case (raised e)
    with keep show ?thesis
      by (simp add: init_loop_calls init_loop_handlers service_ready_loop_iff list_all_iff)
  next
    case first
    with keep show ?thesis
      by (simp add: init_loop_calls init_loop_handlers service_ready_loop_iff list_all_iff)
  next
    case again
    with keep show ?thesis
      by (simp add: init_loop_calls init_loop_handlers service_ready_loop_iff list_all_iff)
  qed
qed

lemma two_containers_pass:
  "configure_charm starts_service two_containers =
     (two_containers
        \<lparr>pebble_handlers := [container ''keystone'' True True, container ''worker'' False False]\<rparr>,
      [InitService ''keystone'' keystone_ctx], ServiceNotReady)"
  by (simp add: example_defs engine_defs Let_def)

theorem init_service_witness:
  "relation_handlers_ready two_containers \<and>
   configure_charm starts_service two_containers =
     (two_containers
        \<lparr>pebble_handlers := [container ''keystone'' True True, container ''worker'' False False]\<rparr>,
      [InitService ''keystone'' keystone_ctx], ServiceNotReady) \<and>
   filter pebble_ready (pebble_handlers two_containers) = [container ''keystone'' True False] \<and>
   filter (\<lambda>x. \<not> is_bootstrap x) [InitService ''keystone'' keystone_ctx] =
     map (\<lambda>p. InitService (container_name p) (contexts two_containers))
       (filter pebble_ready (pebble_handlers two_containers)) \<and>
   \<not> service_ready (container ''worker'' False False)"
proof -
  have r: "relation_handlers_ready two_containers"
    by (simp add: example_defs engine_defs)
  have f: "filter pebble_ready (pebble_handlers two_containers) = [container ''keystone'' True False]"
    by (simp add: example_defs)
  have s: "\<not> service_ready (container ''worker'' False False)"
    by (simp add: container_def)
  from init_service_exactly_for_pebble_ready[OF r two_containers_pass]
  have "filter (\<lambda>x. \<not> is_bootstrap x) [InitService ''keystone'' keystone_ctx] =
     map (\<lambda>p. InitService (container_name p) (contexts two_containers))
       (filter pebble_ready (pebble_handlers two_containers))"
    by blast
  with r f s two_containers_pass show ?thesis by blast
qed

section \<open>Idempotence\<close>

lemma contexts_pass:
  assumes "configure_charm B c = (c', cs, out)"
  shows "contexts c' = contexts c \<and> relation_handlers c' = relation_handlers c"
  using assms by (cases rule: configure_charm_cases) (simp_all add: contexts_def)

lemma converged_pass:
  assumes "state_bootstrapped c" and "unit_status c = ActiveStatus"
    and "configure_charm B c = (c', cs, out)"
  shows "state_bootstrapped c' \<and> unit_status c' = ActiveStatus \<and> contexts c' = contexts c \<and>
    (\<forall>x\<in>set cs. \<exists>name. x = InitService name (contexts c)) \<and>
    (out = RelationsNotReady \<or> out = ServiceNotReady \<or> out = Completed)"
  using assms(3)
proof (cases rule: configure_charm_cases)
  case gate
  with assms(1,2) show ?thesis by simp
next
  case service
  with assms(1,2) show ?thesis by (auto simp: init_loop_calls contexts_def)
next
  case (raised e)
  with assms(1) show ?thesis by simp
next
  case first
  with assms(1) show ?thesis by simp
next
  case again
  then show ?thesis by (auto simp: init_loop_calls contexts_def)
qed

lemma converged_repeat:
  "state_bootstrapped c \<Longrightarrow> unit_status c = ActiveStatus \<Longrightarrow>
   repeat_configure B n c = (c', cs) \<Longrightarrow>
   state_bootstrapped c' \<and> unit_status c' = ActiveStatus \<and>
   (\<forall>x\<in>set cs. \<exists>name. x = InitService name (contexts c))"
proof (induction n arbitrary: c c' cs)
  case 0
  then show ?case by simp
next
  case (Suc n)
  obtain c1 cs1 out where r: "configure_charm B c = (c1, cs1, out)"
    by (cases "configure_charm B c") auto
  obtain c2 cs2 where q: "repeat_configure B n c1 = (c2, cs2)"
    by (cases "repeat_configure B n c1") auto
  from Suc.prems(3) r q have e: "c' = c2" "cs = cs1 @ cs2" by simp_all
  from converged_pass[OF Suc.prems(1,2) r]
  have p: "state_bootstrapped c1" "unit_status c1 = ActiveStatus" "contexts c1 = contexts c"
    "\<forall>x\<in>set cs1. \<exists>name. x = InitService name (contexts c)" by auto
  from Suc.IH[OF p(1,2) q] p(3)
  have "state_bootstrapped c2" "unit_status c2 = ActiveStatus"
    "\<forall>x\<in>set cs2. \<exists>name. x = InitService name (contexts c)" by auto
  with e p(4) show ?case by auto
qed

lemma charm_settled:
  "state_bootstrapped c \<Longrightarrow> unit_status c = ActiveStatus \<Longrightarrow>
   c\<lparr>pebble_handlers := pebble_handlers c, unit_status := ActiveStatus,
     state_bootstrapped := True\<rparr> = c"
  by (cases c) simp

lemma settled_pass:
  assumes "state_bootstrapped c" and "unit_status c = ActiveStatus"
    and "relation_handlers_ready c" and "service_ready_loop (pebble_handlers c)"
    and "\<forall>p\<in>set (pebble_handlers c). pebble_ready p \<longrightarrow> init_service B (contexts c) p = p"
  shows "fst (configure_charm B c) = c"
proof -
  have i: "fst (init_loop B c (pebble_handlers c)) = pebble_handlers c"
    using assms(5) by (simp add: init_loop_handlers map_idI)
  obtain c' cs out where r: "configure_charm B c = (c', cs, out)"
    by (cases "configure_charm B c") auto
  from r have "c' = c"
  proof (cases rule: configure_charm_cases)
    case gate
    then show ?thesis by simp
  next
    case service
    with i assms(4) show ?thesis by simp
  next
    case (raised e)
    with assms(1) show ?thesis by simp
  next
    case first
    with assms(1) show ?thesis by simp
  next
    case again
    with i charm_settled[OF assms(1,2)] show ?thesis by simp
  qed
  with r show ?thesis by simp
qed

lemma settled_repeat:
  assumes "state_bootstrapped c" and "unit_status c = ActiveStatus"
    and "relation_handlers_ready c" and "service_ready_loop (pebble_handlers c)"
    and "\<forall>p\<in>set (pebble_handlers c). pebble_ready p \<longrightarrow> init_service B (contexts c) p = p"
  shows "fst (repeat_configure B n c) = c"
proof (induction n)
  case 0
  then show ?case by simp
next
  case (Suc n)
  obtain c1 cs1 out where r: "configure_charm B c = (c1, cs1, out)"
    by (cases "configure_charm B c") auto
  obtain c2 cs2 where q: "repeat_configure B n c1 = (c2, cs2)"
    by (cases "repeat_configure B n c1") auto
  from settled_pass[OF assms] r have "c1 = c" by simp
  with Suc q have "c2 = c" by simp
  with r q show ?case by simp
qed

text \<open>
  C6. After a pass that completed, calling \<open>configure_charm\<close> again any number of
  times, nothing else changing: the status stays active and the flag stays true, the hook
  is not invoked, and every call made is an \<open>init_service\<close> with the context of the
  first pass. If moreover \<open>init_service\<close> leaves an already configured handler as it
  is, the charm after the later calls is the charm after the first.
\<close>

theorem reconcile_idempotent:
  assumes "configure_charm B c = (c1, cs1, Completed)"
    and "repeat_configure B n c1 = (c2, cs2)"
  shows "unit_status c1 = ActiveStatus \<and> state_bootstrapped c1 \<and>
    unit_status c2 = ActiveStatus \<and> state_bootstrapped c2 \<and>
    (\<forall>x\<in>set cs1. \<not> is_bootstrap x \<longrightarrow> (\<exists>name. x = InitService name (contexts c))) \<and>
    (\<forall>x\<in>set cs2. \<exists>name. x = InitService name (contexts c)) \<and>
    ((\<forall>p\<in>set (pebble_handlers c1). pebble_ready p \<longrightarrow> init_service B (contexts c) p = p)
       \<longrightarrow> c2 = c1)"
proof -
  from assms(1) have a: "unit_status c1 = ActiveStatus" "state_bootstrapped c1"
    "relation_handlers_ready c1" "service_ready_loop (pebble_handlers c1)"
    by (cases rule: configure_charm_cases; simp add: relation_handlers_ready_def)+
  from contexts_pass[OF assms(1)] have k: "contexts c1 = contexts c" by simp
  from assms(1) have f: "\<forall>x\<in>set cs1. \<not> is_bootstrap x \<longrightarrow> (\<exists>name. x = InitService name (contexts c))"
    by (cases rule: configure_charm_cases) (auto simp: init_loop_calls)
  from converged_repeat[OF a(2,1) assms(2)] k
  have b: "state_bootstrapped c2" "unit_status c2 = ActiveStatus"
    "\<forall>x\<in>set cs2. \<exists>name. x = InitService name (contexts c)" by auto
  have "c2 = c1"
    if "\<forall>p\<in>set (pebble_handlers c1). pebble_ready p \<longrightarrow> init_service B (contexts c) p = p"
    using settled_repeat[OF a(2,1,3,4), of B n] that k assms(2) by simp
  with a b f show ?thesis by blast
qed

lemma settled_first_pass:
  "configure_charm leaves_service (keystone True True True) =
     ((keystone True True True)\<lparr>unit_status := ActiveStatus, state_bootstrapped := True\<rparr>,
      [InitService ''keystone'' keystone_ctx, DoBootstrap None], Completed)"
  by (simp add: example_defs engine_defs Let_def)

lemma settled_later_passes:
  "repeat_configure leaves_service (Suc (Suc 0))
     ((keystone True True True)\<lparr>unit_status := ActiveStatus, state_bootstrapped := True\<rparr>) =
     ((keystone True True True)\<lparr>unit_status := ActiveStatus, state_bootstrapped := True\<rparr>,
      [InitService ''keystone'' keystone_ctx, InitService ''keystone'' keystone_ctx])"
  by (simp add: example_defs engine_defs Let_def)

theorem reconcile_idempotent_witness:
  "configure_charm leaves_service (keystone True True True) =
     ((keystone True True True)\<lparr>unit_status := ActiveStatus, state_bootstrapped := True\<rparr>,
      [InitService ''keystone'' keystone_ctx, DoBootstrap None], Completed) \<and>
   repeat_configure leaves_service (Suc (Suc 0))
     ((keystone True True True)\<lparr>unit_status := ActiveStatus, state_bootstrapped := True\<rparr>) =
     ((keystone True True True)\<lparr>unit_status := ActiveStatus, state_bootstrapped := True\<rparr>,
      [InitService ''keystone'' keystone_ctx, InitService ''keystone'' keystone_ctx]) \<and>
   contexts (keystone True True True) = keystone_ctx \<and>
   list_all (\<lambda>x. \<exists>name. x = InitService name (contexts (keystone True True True)))
     [InitService ''keystone'' keystone_ctx, InitService ''keystone'' keystone_ctx]"
proof -
  have k: "contexts (keystone True True True) = keystone_ctx"
    by (simp add: example_defs engine_defs)
  from reconcile_idempotent[OF settled_first_pass settled_later_passes]
  have "\<forall>x\<in>set [InitService ''keystone'' keystone_ctx, InitService ''keystone'' keystone_ctx].
      \<exists>name. x = InitService name (contexts (keystone True True True))"
    by blast
  then have "list_all (\<lambda>x. \<exists>name. x = InitService name (contexts (keystone True True True)))
     [InitService ''keystone'' keystone_ctx, InitService ''keystone'' keystone_ctx]"
    unfolding list_all_iff .
  with settled_first_pass settled_later_passes k show ?thesis by blast
qed

section \<open>The bootstrapped flag\<close>

lemma pass_flag:
  assumes "configure_charm B c = (c', cs, out)"
  shows "(state_bootstrapped c' \<longleftrightarrow> state_bootstrapped c \<or> out = Completed) \<and>
    (out = Completed \<longrightarrow>
       relation_handlers_ready c \<and> list_all service_ready (pebble_handlers c'))"
  using assms
  by (cases rule: configure_charm_cases) (simp_all add: service_ready_loop_iff)

lemma run_flag_sorted:
  "sorted (state_bootstrapped c # map (\<lambda>r. state_bootstrapped (fst r)) (run B c ts))"
proof (induction ts arbitrary: c)
  case Nil
  then show ?case by simp
next
  case (Cons t ts)
  obtain c' cs out where r: "configure_charm B (observe t c) = (c', cs, out)"
    by (cases "configure_charm B (observe t c)") auto
  from pass_flag[OF r] have "state_bootstrapped c \<le> state_bootstrapped c'"
    by auto
  with Cons.IH[of c'] r show ?case
    by (simp add: Let_def)
qed

lemma pass_sets_flag:
  assumes "relation_handlers_ready c"
    and "list_all service_ready (fst (init_loop B c (pebble_handlers c)))"
    and "state_bootstrapped c \<or>
      do_bootstrap_override B
        (c\<lparr>pebble_handlers := fst (init_loop B c (pebble_handlers c))\<rparr>) = None"
  shows "snd (snd (configure_charm B c)) = Completed \<and>
    state_bootstrapped (fst (configure_charm B c))"
proof -
  obtain phs cs where i: "init_loop B c (pebble_handlers c) = (phs, cs)"
    by (cases "init_loop B c (pebble_handlers c)") auto
  with assms(2) have s: "service_ready_loop phs"
    by (simp add: service_ready_loop_iff)
  from assms(3) i have h: "state_bootstrapped c \<or>
      do_bootstrap_override B (c\<lparr>pebble_handlers := phs\<rparr>) = None"
    by simp
  from assms(1) i s h show ?thesis
    by (auto simp: configure_charm_def bootstrapped_def Let_def)
qed

lemma pass_not_stopped:
  assumes "configure_charm B c = (c', cs, out)" and "relation_handlers_ready c"
    and "list_all service_ready (pebble_handlers c')" and "\<forall>e. out \<noteq> Raised e"
  shows "out = Completed \<and> state_bootstrapped c'"
  using assms
  by (cases rule: configure_charm_cases) (simp_all add: service_ready_loop_iff)

text \<open>
  C7. The flag is false when the charm is created on a store that does not hold it, and
  creation on a store that holds it keeps the stored value. Over any sequence of passes
  the flag never goes from true to false, so it becomes true at most once. A pass leaves
  the flag true exactly when it was true before or the pass completed, and a pass
  completes only with all relation handlers ready and, after the init loop, all
  services ready. Conversely the flag is set: a pass with all relation handlers ready
  and all services ready after the init loop, in which the hook is not invoked or
  returns, completes and leaves the flag true.
\<close>

theorem bootstrapped_flag_lifecycle:
  "state_bootstrapped (init name meta ext pst cfg st None) = False \<and>
   state_bootstrapped (init name meta ext pst cfg st (Some b)) = b \<and>
   sorted (state_bootstrapped c # map (\<lambda>r. state_bootstrapped (fst r)) (run B c ts)) \<and>
   (\<forall>c' cs out. configure_charm B c = (c', cs, out) \<longrightarrow>
      (state_bootstrapped c' \<longleftrightarrow> state_bootstrapped c \<or> out = Completed) \<and>
      (out = Completed \<longrightarrow>
         relation_handlers_ready c \<and> list_all service_ready (pebble_handlers c')) \<and>
      (relation_handlers_ready c \<and> list_all service_ready (pebble_handlers c') \<and>
       (\<forall>e. out \<noteq> Raised e) \<longrightarrow> out = Completed \<and> state_bootstrapped c')) \<and>
   (relation_handlers_ready c \<and>
    list_all service_ready (fst (init_loop B c (pebble_handlers c))) \<and>
    (state_bootstrapped c \<or>
     do_bootstrap_override B
       (c\<lparr>pebble_handlers := fst (init_loop B c (pebble_handlers c))\<rparr>) = None) \<longrightarrow>
    snd (snd (configure_charm B c)) = Completed \<and>
    state_bootstrapped (fst (configure_charm B c)))"
proof -
  have "state_bootstrapped (init name meta ext pst cfg st stored) = set_default stored False"
    for stored
    by (simp add: init_def Let_def)
  then have "state_bootstrapped (init name meta ext pst cfg st None) = False"
    and "state_bootstrapped (init name meta ext pst cfg st (Some b)) = b"
    by (simp_all add: set_default_def)
  moreover have "(state_bootstrapped c' \<longleftrightarrow> state_bootstrapped c \<or> out = Completed) \<and>
      (out = Completed \<longrightarrow>
         relation_handlers_ready c \<and> list_all service_ready (pebble_handlers c')) \<and>
      (relation_handlers_ready c \<and> list_all service_ready (pebble_handlers c') \<and>
       (\<forall>e. out \<noteq> Raised e) \<longrightarrow> out = Completed \<and> state_bootstrapped c')"
    if "configure_charm B c = (c', cs, out)" for c' cs out
    using pass_flag[OF that] pass_not_stopped[OF that] by blast
  ultimately show ?thesis
    using run_flag_sorted[of c B ts] pass_sets_flag[of c B] by blast
qed

lemma keystone_flags:
  "map (\<lambda>r. state_bootstrapped (fst r))
     (run starts_service (keystone False True False)
        [keystone_trigger False True False, keystone_trigger True True False,
         keystone_trigger True True True]) = [False, True, True]"
  by (simp add: example_defs engine_defs Let_def)

lemma keystone_completes:
  "configure_charm starts_service (keystone True True False) =
     ((keystone True True True)\<lparr>unit_status := ActiveStatus, state_bootstrapped := True\<rparr>,
      [InitService ''keystone'' keystone_ctx, DoBootstrap None], Completed)"
  by (simp add: example_defs engine_defs Let_def)

lemma keystone_init_loop:
  "fst (init_loop starts_service (keystone True True False)
      (pebble_handlers (keystone True True False))) = [container ''keystone'' True True]"
  by (simp add: example_defs engine_defs Let_def)

theorem bootstrapped_flag_witness:
  "\<not> state_bootstrapped
       (init ''keystone'' [''amqp'', ''peers''] (\<lambda>n. (True, [(n, ''v'')])) (True, False)
          [(''options'', ''debug'')] MaintenanceStatus None) \<and>
   map (\<lambda>r. state_bootstrapped (fst r))
     (run starts_service (keystone False True False)
        [keystone_trigger False True False, keystone_trigger True True False,
         keystone_trigger True True True]) = [False, True, True] \<and>
   sorted [False, False, True, True] \<and>
   configure_charm starts_service (keystone True True False) =
     ((keystone True True True)\<lparr>unit_status := ActiveStatus, state_bootstrapped := True\<rparr>,
      [InitService ''keystone'' keystone_ctx, DoBootstrap None], Completed) \<and>
   relation_handlers_ready (keystone True True False) \<and>
   list_all service_ready
     (pebble_handlers
        ((keystone True True True)\<lparr>unit_status := ActiveStatus, state_bootstrapped := True\<rparr>)) \<and>
   list_all service_ready
     (fst (init_loop starts_service (keystone True True False)
        (pebble_handlers (keystone True True False)))) \<and>
   do_bootstrap_override starts_service
     ((keystone True True False)\<lparr>pebble_handlers :=
        fst (init_loop starts_service (keystone True True False)
          (pebble_handlers (keystone True True False)))\<rparr>) = None \<and>
   \<not> state_bootstrapped (keystone True True False) \<and>
   snd (snd (configure_charm starts_service (keystone True True False))) = Completed \<and>
   state_bootstrapped (fst (configure_charm starts_service (keystone True True False)))"
proof -
  let ?ts = "[keystone_trigger False True False, keystone_trigger True True False,
         keystone_trigger True True True]"
  let ?k = "keystone True True False"
  from bootstrapped_flag_lifecycle
    [of "''keystone''" "[''amqp'', ''peers'']" "\<lambda>n. (True, [(n, ''v'')])" "(True, False)"
      "[(''options'', ''debug'')]" MaintenanceStatus True "keystone False True False"
      starts_service ?ts]
  have i: "\<not> state_bootstrapped
       (init ''keystone'' [''amqp'', ''peers''] (\<lambda>n. (True, [(n, ''v'')])) (True, False)
          [(''options'', ''debug'')] MaintenanceStatus None)"
    and s: "sorted (state_bootstrapped (keystone False True False) #
        map (\<lambda>r. state_bootstrapped (fst r)) (run starts_service (keystone False True False) ?ts))"
    by blast+
  from s have s': "sorted [False, False, True, True]"
    unfolding keystone_flags by (simp add: keystone_def)
  have r: "relation_handlers_ready ?k"
    by (simp add: example_defs engine_defs)
  have l: "list_all service_ready
     (fst (init_loop starts_service ?k (pebble_handlers ?k)))"
    unfolding keystone_init_loop by (simp add: container_def)
  have h: "do_bootstrap_override starts_service
     (?k\<lparr>pebble_handlers := fst (init_loop starts_service ?k (pebble_handlers ?k))\<rparr>) = None"
    by (simp add: starts_service_def)
  have n: "\<not> state_bootstrapped ?k"
    by (simp add: keystone_def)
  note life = bootstrapped_flag_lifecycle
    [of "''keystone''" "[''amqp'', ''peers'']" "\<lambda>n. (True, [(n, ''v'')])" "(True, False)"
      "[(''options'', ''debug'')]" MaintenanceStatus True ?k starts_service "[]"]
  from life r l h
  have d: "snd (snd (configure_charm starts_service ?k)) = Completed"
    "state_bootstrapped (fst (configure_charm starts_service ?k))"
    by blast+
  from life keystone_completes
  have g: "list_all service_ready
     (pebble_handlers
        ((keystone True True True)\<lparr>unit_status := ActiveStatus, state_bootstrapped := True\<rparr>))"
    by blast
  from i keystone_flags s' keystone_completes r g l h n d show ?thesis by blast
qed

section \<open>Leadership\<close>

lemma peer_view_same: "peers u = Some p \<Longrightarrow> u\<lparr>peers := Some p\<rparr> = u"
  by (cases u) simp

text \<open>
  C8. With the peer relation present and the unit not the leader: \<open>leader_set\<close> is
  rejected or returns the charm unchanged, \<open>leader_get\<close> returns what the peer data
  holds, and \<open>request_access\<close> returns without writing. The same calls by the leader
  write: the value set is the value read back, and the relation data holds the request.
\<close>

theorem non_leader_writes_no_effect:
  assumes "peers u = Some p" and "\<not> leader u" and "\<not> is_leader s"
  shows "(leader_set rejects u k v = Inl RelationDataError \<or> leader_set rejects u k v = Inr u) \<and>
    leader_get u k' = Inr (map_of (app_data p) k') \<and>
    request_access s [dbs] = (s, None) \<and>
    leader_set rejects (u\<lparr>leader := True\<rparr>) k v =
      Inr (u\<lparr>leader := True, peers := Some (p\<lparr>app_data := AList.update k v (app_data p)\<rparr>)\<rparr>) \<and>
    leader_get
      (u\<lparr>leader := True, peers := Some (p\<lparr>app_data := AList.update k v (app_data p)\<rparr>)\<rparr>) k =
      Inr (Some v) \<and>
    request_access (s\<lparr>is_leader := True, db_rel_data := Some d\<rparr>) [dbs] =
      (s\<lparr>is_leader := True,
         db_rel_data := Some (AList.update ''databases'' (JsonDumps dbs) d)\<rparr>, None)"
proof -
  from assms(1,2) have "leader_set rejects u k v = Inl RelationDataError \<or> leader_set rejects u k v = Inr u"
    by (simp add: leader_set_def set_app_data_def peer_view_same)
  moreover from assms(1) have "leader_get u k' = Inr (map_of (app_data p) k')"
    by (simp add: leader_get_def get_app_data_def)
  moreover from assms(3) have "request_access s [dbs] = (s, None)"
    by simp
  moreover from assms(1) have "leader_set rejects (u\<lparr>leader := True\<rparr>) k v =
      Inr (u\<lparr>leader := True, peers := Some (p\<lparr>app_data := AList.update k v (app_data p)\<rparr>)\<rparr>)"
    by (simp add: leader_set_def set_app_data_def)
  moreover have "leader_get
      (u\<lparr>leader := True, peers := Some (p\<lparr>app_data := AList.update k v (app_data p)\<rparr>)\<rparr>) k =
      Inr (Some v)"
    by (simp add: leader_get_def get_app_data_def update_conv')
  moreover have "request_access (s\<lparr>is_leader := True, db_rel_data := Some d\<rparr>) [dbs] =
      (s\<lparr>is_leader := True,
         db_rel_data := Some (AList.update ''databases'' (JsonDumps dbs) d)\<rparr>, None)"
    by simp
  ultimately show ?thesis by blast
qed

theorem non_leader_witness:
  "peers follower = Some \<lparr>app_data = [(''password'', ''s3cret'')]\<rparr> \<and>
   \<not> leader follower \<and> \<not> is_leader follower_db \<and>
   leader_set True follower ''password'' ''other'' = Inl RelationDataError \<and>
   leader_set False follower ''password'' ''other'' = Inr follower \<and>
   leader_get follower ''password'' = Inr (Some ''s3cret'') \<and>
   request_access follower_db [StrList [''keystone'']] = (follower_db, None) \<and>
   leader_get
     (follower\<lparr>leader := True, peers := Some \<lparr>app_data = [(''password'', ''other'')]\<rparr>\<rparr>)
     ''password'' = Inr (Some ''other'')"
proof -
  have a: "peers follower = Some \<lparr>app_data = [(''password'', ''s3cret'')]\<rparr>"
    "\<not> leader follower" "\<not> is_leader follower_db"
    by (simp_all add: follower_def follower_db_def shared_db_init_def)
  have r: "leader_set True follower ''password'' ''other'' = Inl RelationDataError"
    "leader_set False follower ''password'' ''other'' = Inr follower"
    by (simp_all add: follower_def leader_set_def set_app_data_def)
  from non_leader_writes_no_effect[OF a, of True "''password''" "''other''" "''password''"
      "StrList [''keystone'']" "[]"]
  have "leader_get follower ''password'' = Inr (Some ''s3cret'')"
    and "request_access follower_db [StrList [''keystone'']] = (follower_db, None)"
    and "leader_get
     (follower\<lparr>leader := True, peers := Some \<lparr>app_data = [(''password'', ''other'')]\<rparr>\<rparr>)
     ''password'' = Inr (Some ''other'')"
    by simp_all
  with a r show ?thesis by blast
qed

section \<open>The database relation events\<close>

lemma class_dict_eval:
  "class_dict =
     [(''on'', Ref ''DatabaseServerEvents''),
      (''_stored'', Ref ''StoredState''),
      (''_db_rel'', BoundMethod Db_rel),
      (''_on_database_relation_joined'', BoundMethod Joined_second),
      (''_on_database_relation_changed'', BoundMethod Changed),
      (''_on_database_relation_broken'', BoundMethod Broken),
      (''request_access'', BoundMethod Request_access)]"
  by (simp add: class_dict_def class_body_def)

lemmas shared_db_defs =
  shared_db_init_def getattr_def class_dict_eval object_dict_def observers_def dispatch_def
  emit_def on_database_relation_joined_def on_database_relation_changed_def

text \<open>
  C9. Of the two definitions of \<open>_on_database_relation_joined\<close> the class keeps the
  second. On every instance that \<open>__init__\<close> builds, whatever was emitted before, a
  \<open>relation_joined\<close> event emits \<open>connected\<close> and then raises: \<open>username\<close> is
  not an attribute, so evaluating the first argument fails and \<open>request_access\<close> is not
  entered; the relation data is what it was. A call of \<open>request_access\<close> with two
  positional arguments raises too, whatever the arguments.
\<close>

theorem joined_handler_always_raises:
  "map_of class_dict ''_on_database_relation_joined'' = Some (BoundMethod Joined_second) \<and>
   getattr ((shared_db_init ch rn dbs ldr rel)\<lparr>emitted := es\<rparr>) ''username'' =
     Inl (AttributeError ''username'') \<and>
   dispatch ((shared_db_init ch rn dbs ldr rel)\<lparr>emitted := es\<rparr>) RelationJoined =
     ((shared_db_init ch rn dbs ldr rel)\<lparr>emitted := es @ [Connected]\<rparr>,
      Some (AttributeError ''username'')) \<and>
   db_rel_data (fst (dispatch ((shared_db_init ch rn dbs ldr rel)\<lparr>emitted := es\<rparr>)
      RelationJoined)) = rel \<and>
   request_access s [u, d] = (s, Some (TypeError ''request_access''))"
proof -
  let ?s = "(shared_db_init ch rn dbs ldr rel)\<lparr>emitted := es\<rparr>"
  have m: "map_of class_dict ''_on_database_relation_joined'' = Some (BoundMethod Joined_second)"
    by (simp add: class_dict_eval)
  have g: "getattr ?s ''username'' = Inl (AttributeError ''username'')"
    by (simp add: shared_db_defs)
  have j: "on_database_relation_joined ?s =
      ((shared_db_init ch rn dbs ldr rel)\<lparr>emitted := es @ [Connected]\<rparr>,
       Some (AttributeError ''username''))"
    by (simp add: shared_db_defs)
  have h: "getattr ?s ''_on_database_relation_joined'' = Inr (BoundMethod Joined_second)"
    by (simp add: shared_db_defs)
  have e: "dispatch ?s RelationJoined =
      ((shared_db_init ch rn dbs ldr rel)\<lparr>emitted := es @ [Connected]\<rparr>,
       Some (AttributeError ''username''))"
    using h j by (simp add: dispatch_def observers_def)
  have r: "db_rel_data (fst (dispatch ?s RelationJoined)) = rel"
    unfolding e by (simp add: shared_db_init_def)
  have t: "request_access s [u, d] = (s, Some (TypeError ''request_access''))"
    by simp
  from m g e r t show ?thesis by blast
qed

theorem joined_handler_witness:
  "dispatch follower_db RelationJoined =
     (follower_db\<lparr>emitted := [Connected]\<rparr>, Some (AttributeError ''username'')) \<and>
   db_rel_data (fst (dispatch follower_db RelationJoined)) = Some []"
proof -
  have f: "(shared_db_init ''keystone'' ''shared-db'' [''keystone''] False (Some []))
      \<lparr>emitted := []\<rparr> = follower_db"
    by (simp add: follower_db_def shared_db_init_def)
  have f': "(shared_db_init ''keystone'' ''shared-db'' [''keystone''] False (Some []))
      \<lparr>emitted := [] @ [Connected]\<rparr> = follower_db\<lparr>emitted := [Connected]\<rparr>"
    by (simp add: follower_db_def shared_db_init_def)
  note joined_handler_always_raises
    [where ch = "''keystone''" and rn = "''shared-db''" and dbs = "[''keystone'']"
      and ldr = False and rel = "Some []" and es = "[]", unfolded f f']
  then show ?thesis by blast
qed

text \<open>
  C10. On every instance that \<open>__init__\<close> builds, whatever was emitted before, a
  \<open>relation_changed\<close> or \<open>relation_departed\<close> event raises at \<open>self.password\<close>,
  which is not an attribute; the instance is left as it was, so \<open>ready\<close> is not
  emitted.
\<close>

theorem changed_handler_always_raises:
  "getattr ((shared_db_init ch rn dbs ldr rel)\<lparr>emitted := es\<rparr>) ''password'' =
     Inl (AttributeError ''password'') \<and>
   dispatch ((shared_db_init ch rn dbs ldr rel)\<lparr>emitted := es\<rparr>) RelationChanged =
     ((shared_db_init ch rn dbs ldr rel)\<lparr>emitted := es\<rparr>, Some (AttributeError ''password'')) \<and>
   dispatch ((shared_db_init ch rn dbs ldr rel)\<lparr>emitted := es\<rparr>) RelationDeparted =
     ((shared_db_init ch rn dbs ldr rel)\<lparr>emitted := es\<rparr>, Some (AttributeError ''password'')) \<and>
   emitted (fst (dispatch ((shared_db_init ch rn dbs ldr rel)\<lparr>emitted := es\<rparr>)
      RelationChanged)) = es \<and>
   emitted (fst (dispatch ((shared_db_init ch rn dbs ldr rel)\<lparr>emitted := es\<rparr>)
      RelationDeparted)) = es"
proof -
  let ?s = "(shared_db_init ch rn dbs ldr rel)\<lparr>emitted := es\<rparr>"
  have g: "getattr ?s ''password'' = Inl (AttributeError ''password'')"
    by (simp add: shared_db_defs)
  then have c: "on_database_relation_changed ?s = (?s, Some (AttributeError ''password''))"
    by (simp add: on_database_relation_changed_def)
  have h: "getattr ?s ''_on_database_relation_changed'' = Inr (BoundMethod Changed)"
    by (simp add: shared_db_defs)
  have e1: "dispatch ?s RelationChanged = (?s, Some (AttributeError ''password''))"
    using h c by (simp add: dispatch_def observers_def)
  have e2: "dispatch ?s RelationDeparted = (?s, Some (AttributeError ''password''))"
    using h c by (simp add: dispatch_def observers_def)
  have "emitted (fst (dispatch ?s RelationChanged)) = es"
    and "emitted (fst (dispatch ?s RelationDeparted)) = es"
    unfolding e1 e2 by simp_all
  with g e1 e2 show ?thesis by blast
qed

theorem changed_handler_witness:
  "dispatch follower_db RelationChanged = (follower_db, Some (AttributeError ''password'')) \<and>
   dispatch follower_db RelationDeparted = (follower_db, Some (AttributeError ''password'')) \<and>
   emitted (fst (dispatch follower_db RelationChanged)) = []"
proof -
  have f: "(shared_db_init ''keystone'' ''shared-db'' [''keystone''] False (Some []))
      \<lparr>emitted := []\<rparr> = follower_db"
    by (simp add: follower_db_def shared_db_init_def)
  note changed_handler_always_raises
    [where ch = "''keystone''" and rn = "''shared-db''" and dbs = "[''keystone'']"
      and ldr = False and rel = "Some []" and es = "[]", unfolded f]
  then show ?thesis by blast
qed

end
